theory Spec2Isabelle
  imports Complex_Main "HOL-Library.Word"
begin

section \<open>Task run futures (src/prefect/futures.py)\<close>

subsection \<open>Values, statuses and errors\<close>

text \<open>
  A run identifier is a UUID, a 128-bit integer. Objects of class \<open>PrefectFuture\<close> live
  in a store and are referred to by their address; clients and executors are shared
  objects, referred to by a reference number. The timeout of \<open>wait\<close> is a Python float
  that the code hands to the executor without looking at it.
\<close>

type_synonym uuid = "128 word"
type_synonym addr = nat
type_synonym client_ref = nat
type_synonym executor_ref = nat
type_synonym timeout = real

text \<open>
  Modelled from the spec: class \<open>State\<close> of \<open>prefect.orion.schemas.states\<close> is not
  part of the sources at hand. The spec gives a status the variants Pending, Running,
  Completed, Failed and Cancelled, of which a terminal one carries a payload or error
  that may not be attached yet. \<open>is_completed\<close> and \<open>is_failed\<close> test the variant;
  \<open>data\<close> is the payload slot, Python's \<open>None\<close> when nothing is attached. A status
  object defines neither \<open>__bool__\<close> nor \<open>__len__\<close>, so it is always truthy, and so is
  an attached payload document.
\<close>

datatype state_type = Pending | Running | Completed | Failed | Cancelled

datatype 'd state = State (stype: state_type) (data: "'d option")

definition is_completed :: "'d state \<Rightarrow> bool" where
  "is_completed s = (stype s = Completed)"

definition is_failed :: "'d state \<Rightarrow> bool" where
  "is_failed s = (stype s = Failed)"

text \<open>
  The values a user structure is built from: scalars, objects of a type the traversal
  does not know (\<open>Opaque\<close>), references to futures, status objects, lists and tuples,
  dicts (an association list in insertion order), sets (their members in iteration
  order) and dataclass instances (class name and fields in declaration order).
\<close>

datatype scalar = SNone | SBool bool | SInt int | SStr string

datatype seq_kind = ListK | TupleK

datatype pyval =
    Scalar scalar
  | Opaque nat
  | Handle addr
  | StatusV "pyval state"
  | Sequence seq_kind "pyval list"
  | Mapping "(scalar \<times> pyval) list"
  | SetV "pyval list"
  | Record string "(string \<times> pyval) list"

text \<open>
  \<open>RuntimeError\<close> is the exception \<open>get_state\<close> raises, with its message.
  \<open>UpstreamFailure\<close> and \<open>MissingStatus\<close> are the failures of \<open>prefect.get_result\<close>,
  see there.
\<close>

datatype error =
    RuntimeError string
  | UpstreamFailure "pyval option"
  | MissingStatus

definition NotFound :: error where
  "NotFound = RuntimeError ''Future has no associated task run in the server.''"

subsection \<open>The future object and its collaborators\<close>

record future =
  run_id :: uuid
  client :: client_ref
  final_state :: "pyval state option"
  exception :: "error option"
  executor :: executor_ref

text \<open>\<open>PrefectFuture.__init__\<close>; \<open>_final_state\<close> defaults to \<open>None\<close>.\<close>

definition init :: "uuid \<Rightarrow> client_ref \<Rightarrow> executor_ref \<Rightarrow> pyval state option \<Rightarrow> future" where
  "init rid cl ex fs =
     \<lparr>run_id = rid, client = cl, final_state = fs, exception = None, executor = ex\<rparr>"

text \<open>
  Modelled from the spec: class \<open>TaskRun\<close> (the record the client returns); only its
  \<open>state\<close> attribute is read.
\<close>

datatype task_run = TaskRun (state: "pyval state")

text \<open>
  The two collaborators are outside the sources and are parameters of the model. Each
  is a function of the outside world \<open>'w\<close> (the server, the running tasks, the clock),
  which it may change:
  \<^item> \<open>read_task_run\<close> is \<open>OrionClient.read_task_run\<close>, given the client and the run
    identifier; \<open>None\<close> when the server has no such task run;
  \<^item> \<open>executor_wait\<close> is \<open>BaseExecutor.wait\<close>, given the executor, the future (its
    address and its fields) and the timeout; \<open>None\<close> when the timeout elapsed first.
\<close>

record 'w env =
  read_task_run :: "'w \<Rightarrow> client_ref \<Rightarrow> uuid \<Rightarrow> task_run option \<times> 'w"
  executor_wait :: "'w \<Rightarrow> executor_ref \<Rightarrow> addr \<Rightarrow> future \<Rightarrow> timeout option
                      \<Rightarrow> pyval state option \<times> 'w"

text \<open>Every call on a collaborator is recorded, in order.\<close>

datatype call =
    ReadTaskRun client_ref uuid
  | ExecutorWait executor_ref addr "timeout option"

record 'w sys =
  heap :: "addr \<Rightarrow> future"
  world :: 'w
  calls :: "call list"

subsection \<open>\<open>PrefectFuture.get_state\<close> and \<open>PrefectFuture.wait\<close>\<close>

definition get_state :: "'w env \<Rightarrow> 'w sys \<Rightarrow> addr \<Rightarrow> (error + pyval state) \<times> 'w sys" where
  "get_state env st a =
     (let self = heap st a;
          (task_run, w') = read_task_run env (world st) (client self) (run_id self);
          st' = st\<lparr>world := w', calls := calls st @ [ReadTaskRun (client self) (run_id self)]\<rparr>
      in case task_run of
           None \<Rightarrow> (Inl NotFound, st')
         | Some tr \<Rightarrow> (Inr (state tr), st'))"

definition wait :: "'w env \<Rightarrow> 'w sys \<Rightarrow> addr \<Rightarrow> timeout option
                      \<Rightarrow> (error + pyval state option) \<times> 'w sys" where
  "wait env st a tmo =
     (case final_state (heap st a) of
        Some fs \<Rightarrow> (Inr (Some fs), st)
      | None \<Rightarrow>
          (case get_state env st a of
             (Inl e, st1) \<Rightarrow> (Inl e, st1)
           | (Inr s, st1) \<Rightarrow>
               if (is_completed s \<or> is_failed s) \<and> data s \<noteq> None then (Inr (Some s), st1)
               else
                 (let self = heap st1 a;
                      (r, w') = executor_wait env (world st1) (executor self) a self tmo
                  in (Inr r,
                      st1\<lparr>heap := (heap st1)(a := self\<lparr>final_state := r\<rparr>),
                          world := w',
                          calls := calls st1 @ [ExecutorWait (executor self) a tmo]\<rparr>))))"

text \<open>
  \<open>PrefectFuture.__hash__\<close>: the hash of the run identifier; \<open>h\<close> is Python's \<open>hash\<close>
  on UUIDs. The class defines no \<open>__eq__\<close>, so \<open>==\<close> on two futures is the default of
  \<open>object\<close>: identity of the two objects.
\<close>

definition future_hash :: "(uuid \<Rightarrow> int) \<Rightarrow> future \<Rightarrow> int" where
  "future_hash h self = h (run_id self)"

definition future_eq :: "addr \<Rightarrow> addr \<Rightarrow> bool" where
  "future_eq a b = (a = b)"

text \<open>A sequence of calls on futures, for statements about every sequence.\<close>

datatype op = Wait addr "timeout option" | GetState addr

fun run_op :: "'w env \<Rightarrow> 'w sys \<Rightarrow> op \<Rightarrow> 'w sys" where
  "run_op env st (Wait a tmo) = snd (wait env st a tmo)"
| "run_op env st (GetState a) = snd (get_state env st a)"

fun run_ops :: "'w env \<Rightarrow> 'w sys \<Rightarrow> op list \<Rightarrow> 'w sys" where
  "run_ops env st [] = st"
| "run_ops env st (x # xs) = run_ops env (run_op env st x) xs"

subsection \<open>Resolving the futures inside a structure\<close>

text \<open>
  Modelled from the spec: \<open>prefect.get_result\<close> is not part of the sources at hand.
  The spec has it extract the payload from the status and fail with the error the status
  carries when the status is Failed or Cancelled (\<open>UpstreamFailure\<close>). A status without
  payload yields Python's \<open>None\<close>; where \<open>wait\<close> handed back no status at all there is
  nothing to extract from (\<open>MissingStatus\<close>).
\<close>

definition get_result :: "pyval state option \<Rightarrow> error + pyval" where
  "get_result r =
     (case r of
        None \<Rightarrow> Inl MissingStatus
      | Some s \<Rightarrow>
          if stype s = Failed \<or> stype s = Cancelled then Inl (UpstreamFailure (data s))
          else Inr (case data s of None \<Rightarrow> Scalar SNone | Some v \<Rightarrow> v))"

text \<open>
  Modelled from the spec: \<open>prefect.utilities.collections.visit_collection\<close> is not part
  of the sources at hand. The spec's traversal contract: the walk recurses into
  sequences, mappings (keys preserved, in insertion order), sets and records (field by
  field), rebuilds each container in its own kind from the visited children, hands every
  other value to \<open>visit_fn\<close>, and lets an error of \<open>visit_fn\<close> end the walk. A set is
  rebuilt as a set: members that have become equal are one member. Siblings are visited
  one after another, in order.
\<close>

function visit_collection ::
    "('s \<Rightarrow> pyval \<Rightarrow> (error + pyval) \<times> 's) \<Rightarrow> 's \<Rightarrow> pyval \<Rightarrow> (error + pyval) \<times> 's"
  and visit_list ::
    "('s \<Rightarrow> pyval \<Rightarrow> (error + pyval) \<times> 's) \<Rightarrow> 's \<Rightarrow> pyval list
       \<Rightarrow> (error + pyval list) \<times> 's"
where
  "visit_collection f st (Sequence k xs) =
     (case visit_list f st xs of
        (Inl e, st') \<Rightarrow> (Inl e, st')
      | (Inr ys, st') \<Rightarrow> (Inr (Sequence k ys), st'))"
| "visit_collection f st (Mapping kvs) =
     (case visit_list f st (map snd kvs) of
        (Inl e, st') \<Rightarrow> (Inl e, st')
      | (Inr ys, st') \<Rightarrow> (Inr (Mapping (zip (map fst kvs) ys)), st'))"
| "visit_collection f st (SetV xs) =
     (case visit_list f st xs of
        (Inl e, st') \<Rightarrow> (Inl e, st')
      | (Inr ys, st') \<Rightarrow> (Inr (SetV (remdups ys)), st'))"
| "visit_collection f st (Record c fs) =
     (case visit_list f st (map snd fs) of
        (Inl e, st') \<Rightarrow> (Inl e, st')
      | (Inr ys, st') \<Rightarrow> (Inr (Record c (zip (map fst fs) ys)), st'))"
| "visit_collection f st (Scalar v) = f st (Scalar v)"
| "visit_collection f st (Opaque n) = f st (Opaque n)"
| "visit_collection f st (Handle a) = f st (Handle a)"
| "visit_collection f st (StatusV s) = f st (StatusV s)"
| "visit_list f st [] = (Inr [], st)"
| "visit_list f st (x # xs) =
     (case visit_collection f st x of
        (Inl e, st') \<Rightarrow> (Inl e, st')
      | (Inr y, st') \<Rightarrow>
          (case visit_list f st' xs of
             (Inl e, st'') \<Rightarrow> (Inl e, st'')
           | (Inr ys, st'') \<Rightarrow> (Inr (y # ys), st'')))"
  by pat_completeness auto
termination
proof (relation "measure (\<lambda>p. case p of Inl (f, st, v) \<Rightarrow> size v
                                      | Inr (f, st, xs) \<Rightarrow> size_list size xs)")
  have values_le: "size_list size (map snd kvs) \<le> size_list (size_prod (\<lambda>_. 0) size) kvs"
    for kvs :: "('k \<times> pyval) list"
    by (induction kvs) auto
  show "wf (measure (\<lambda>p. case p of Inl (f, st, v) \<Rightarrow> size v
                                      | Inr (f, st, xs) \<Rightarrow> size_list size xs))"
    by simp
  fix f :: "'s \<Rightarrow> pyval \<Rightarrow> (error + pyval) \<times> 's" and st :: 's
  show "(Inr (f, st, map snd kvs), Inl (f, st, Mapping kvs))
          \<in> measure (\<lambda>p. case p of Inl (f, st, v) \<Rightarrow> size v
                                      | Inr (f, st, xs) \<Rightarrow> size_list size xs)"
    for kvs
    using values_le [of kvs] by simp
  show "(Inr (f, st, map snd fs), Inl (f, st, Record c fs))
          \<in> measure (\<lambda>p. case p of Inl (f, st, v) \<Rightarrow> size v
                                      | Inr (f, st, xs) \<Rightarrow> size_list size xs)"
    for c fs
    using values_le [of fs] by simp
qed auto

text \<open>
  The \<open>visit_fn\<close> of \<open>resolve_futures_to_data\<close>: a future is waited for, without
  timeout, and the result of \<open>get_result\<close> on its status takes its place; any other
  value is returned as it is.
\<close>

definition data_visit_fn :: "'w env \<Rightarrow> 'w sys \<Rightarrow> pyval \<Rightarrow> (error + pyval) \<times> 'w sys" where
  "data_visit_fn env st expr =
     (case expr of
        Handle a \<Rightarrow>
          (case wait env st a None of
             (Inl e, st') \<Rightarrow> (Inl e, st')
           | (Inr r, st') \<Rightarrow> (get_result r, st'))
      | _ \<Rightarrow> (Inr expr, st))"

definition resolve_futures_to_data ::
    "'w env \<Rightarrow> 'w sys \<Rightarrow> pyval \<Rightarrow> (error + pyval) \<times> 'w sys" where
  "resolve_futures_to_data env st expr = visit_collection (data_visit_fn env) st expr"

text \<open>
  The \<open>visit_fn\<close> of \<open>resolve_futures_to_states\<close>: what \<open>wait\<close> returns takes the
  place of the future, a status object or Python's \<open>None\<close>.
\<close>

definition states_visit_fn :: "'w env \<Rightarrow> 'w sys \<Rightarrow> pyval \<Rightarrow> (error + pyval) \<times> 'w sys" where
  "states_visit_fn env st expr =
     (case expr of
        Handle a \<Rightarrow>
          (case wait env st a None of
             (Inl e, st') \<Rightarrow> (Inl e, st')
           | (Inr r, st') \<Rightarrow> (Inr (case r of None \<Rightarrow> Scalar SNone | Some s \<Rightarrow> StatusV s), st'))
      | _ \<Rightarrow> (Inr expr, st))"

definition resolve_futures_to_states ::
    "'w env \<Rightarrow> 'w sys \<Rightarrow> pyval \<Rightarrow> (error + pyval) \<times> 'w sys" where
  "resolve_futures_to_states env st expr = visit_collection (states_visit_fn env) st expr"

subsection \<open>Vocabulary of the statements about structures\<close>

text \<open>The futures of a structure, in the order of the walk.\<close>

fun handles :: "pyval \<Rightarrow> addr list" where
  "handles (Handle a) = [a]"
| "handles (Sequence k xs) = concat (map handles xs)"
| "handles (Mapping kvs) = concat (map handles (map snd kvs))"
| "handles (SetV xs) = concat (map handles xs)"
| "handles (Record c fs) = concat (map handles (map snd fs))"
| "handles _ = []"

text \<open>The invariant of the representation of sets: no member is listed twice.\<close>

fun distinct_sets :: "pyval \<Rightarrow> bool" where
  "distinct_sets (Sequence k xs) = (\<forall>x \<in> set xs. distinct_sets x)"
| "distinct_sets (Mapping kvs) = (\<forall>x \<in> set (map snd kvs). distinct_sets x)"
| "distinct_sets (SetV xs) = (distinct xs \<and> (\<forall>x \<in> set xs. distinct_sets x))"
| "distinct_sets (Record c fs) = (\<forall>x \<in> set (map snd fs). distinct_sets x)"
| "distinct_sets _ = True"

text \<open>
  The structure \<open>v\<close> with its futures replaced, in the order of the walk, by the values
  \<open>ps\<close>, and nothing else changed: same containers, same keys and field names, same
  values everywhere else. \<open>dd\<close> is what happens to the member list of a set: nothing for
  \<open>fill\<close>, which is the replacement the spec describes, and the merging of equal
  members for \<open>rebuild\<close>, which is what a set does.
\<close>

function fill_with :: "(pyval list \<Rightarrow> pyval list) \<Rightarrow> pyval \<Rightarrow> pyval list \<Rightarrow> pyval"
  and fill_list_with ::
    "(pyval list \<Rightarrow> pyval list) \<Rightarrow> pyval list \<Rightarrow> pyval list \<Rightarrow> pyval list"
where
  "fill_with dd (Handle a) ps = (case ps of [] \<Rightarrow> Handle a | p # _ \<Rightarrow> p)"
| "fill_with dd (Sequence k xs) ps = Sequence k (fill_list_with dd xs ps)"
| "fill_with dd (Mapping kvs) ps =
     Mapping (zip (map fst kvs) (fill_list_with dd (map snd kvs) ps))"
| "fill_with dd (SetV xs) ps = SetV (dd (fill_list_with dd xs ps))"
| "fill_with dd (Record c fs) ps =
     Record c (zip (map fst fs) (fill_list_with dd (map snd fs) ps))"
| "fill_with dd (Scalar v) ps = Scalar v"
| "fill_with dd (Opaque n) ps = Opaque n"
| "fill_with dd (StatusV s) ps = StatusV s"
| "fill_list_with dd [] ps = []"
| "fill_list_with dd (x # xs) ps =
     fill_with dd x (take (length (handles x)) ps)
       # fill_list_with dd xs (drop (length (handles x)) ps)"
  by pat_completeness auto
termination
proof (relation "measure (\<lambda>p. case p of Inl (dd, v, ps) \<Rightarrow> size v
                                      | Inr (dd, xs, ps) \<Rightarrow> size_list size xs)")
  have values_le: "size_list size (map snd kvs) \<le> size_list (size_prod (\<lambda>_. 0) size) kvs"
    for kvs :: "('k \<times> pyval) list"
    by (induction kvs) auto
  show "wf (measure (\<lambda>p. case p of Inl (dd, v, ps) \<Rightarrow> size v
                                      | Inr (dd, xs, ps) \<Rightarrow> size_list size xs))"
    by simp
  fix dd :: "pyval list \<Rightarrow> pyval list" and ps :: "pyval list"
  show "(Inr (dd, map snd kvs, ps), Inl (dd, Mapping kvs, ps))
          \<in> measure (\<lambda>p. case p of Inl (dd, v, ps) \<Rightarrow> size v
                                      | Inr (dd, xs, ps) \<Rightarrow> size_list size xs)"
    for kvs
    using values_le [of kvs] by simp
  show "(Inr (dd, map snd fs, ps), Inl (dd, Record c fs, ps))
          \<in> measure (\<lambda>p. case p of Inl (dd, v, ps) \<Rightarrow> size v
                                      | Inr (dd, xs, ps) \<Rightarrow> size_list size xs)"
    for c fs
    using values_le [of fs] by simp
qed auto

definition fill :: "pyval \<Rightarrow> pyval list \<Rightarrow> pyval" where
  "fill v ps = fill_with (\<lambda>xs. xs) v ps"

definition rebuild :: "pyval \<Rightarrow> pyval list \<Rightarrow> pyval" where
  "rebuild v ps = fill_with remdups v ps"

text \<open>
  Waiting for futures one after another, without timeout, each in the system the wait
  before it has left: what \<open>wait\<close> returned for each, or the first error.
\<close>

fun wait_each :: "'w env \<Rightarrow> 'w sys \<Rightarrow> addr list \<Rightarrow> (error + pyval state option list) \<times> 'w sys" where
  "wait_each env st [] = (Inr [], st)"
| "wait_each env st (a # as) =
     (case wait env st a None of
        (Inl e, st') \<Rightarrow> (Inl e, st')
      | (Inr r, st') \<Rightarrow>
          (case wait_each env st' as of
             (Inl e, st'') \<Rightarrow> (Inl e, st'')
           | (Inr rs, st'') \<Rightarrow> (Inr (r # rs), st'')))"

text \<open>What \<open>wait\<close> returned, as a value: a status object or Python's \<open>None\<close>.\<close>

fun result_value :: "pyval state option \<Rightarrow> pyval" where
  "result_value None = Scalar SNone"
| "result_value (Some s) = StatusV s"

text \<open>\<open>wait\<close> returned a status, and it is neither Failed nor Cancelled.\<close>

fun neither_failed_nor_cancelled :: "pyval state option \<Rightarrow> bool" where
  "neither_failed_nor_cancelled None = False"
| "neither_failed_nor_cancelled (Some s) = (stype s \<noteq> Failed \<and> stype s \<noteq> Cancelled)"

subsection \<open>A small system to run the definitions on\<close>

text \<open>
  A server that knows five task runs: 1 is completed with result 7, 2 is cancelled, 3 is
  still running, 4 and 5 have failed, each with its own payload; no other identifier is
  known. The executor gives up when the timeout is below 10, and otherwise reports the
  final state. The world counts the calls made. The futures at addresses 1 to 4 are for
  the runs 1 to 4, those at 5 and 7 are second futures for the runs 4 and 1, the one at 6
  is for an unknown run and was constructed with a final state, the one at 8 is for
  run 5, and every other address holds a future for the unknown run 0.
\<close>

definition demo_env :: "nat env" where
  "demo_env =
     \<lparr>read_task_run = (\<lambda>w c u.
        ((if u = 1 then Some (TaskRun (State Completed (Some (Scalar (SInt 7)))))
          else if u = 2 then Some (TaskRun (State Cancelled (Some (Scalar (SStr ''stop'')))))
          else if u = 3 then Some (TaskRun (State Running None))
          else if u = 4 then Some (TaskRun (State Failed (Some (Scalar (SStr ''boom'')))))
          else if u = 5 then Some (TaskRun (State Failed (Some (Scalar (SStr ''bang'')))))
          else None), Suc w)),
      executor_wait = (\<lambda>w e a self tmo.
        ((case tmo of
            Some t \<Rightarrow> if t < 10 then None else Some (State Completed (Some (Scalar (SInt 3))))
          | None \<Rightarrow> Some (if run_id self = 2 then State Cancelled (Some (Scalar (SStr ''stop'')))
                          else State Completed (Some (Scalar (SInt 3))))), Suc w))\<rparr>"

definition demo_heap :: "addr \<Rightarrow> future" where
  "demo_heap a =
     (if a = 1 then init 1 0 0 None
      else if a = 2 then init 2 0 0 None
      else if a = 3 then init 3 0 0 None
      else if a = 4 then init 4 0 0 None
      else if a = 5 then init 4 0 0 None
      else if a = 6 then init 0 0 0 (Some (State Completed (Some (Scalar (SInt 7)))))
      else if a = 7 then init 1 0 0 None
      else if a = 8 then init 5 0 0 None
      else init 0 0 0 None)"

definition demo_sys :: "nat sys" where
  "demo_sys = \<lparr>heap = demo_heap, world = 0, calls = []\<rparr>"

text \<open>
  A dict with a list under one key and a dataclass instance under the other; the list
  holds a plain value and the future of run 1, the instance the future of run 4.
\<close>

definition demo_struct :: pyval where
  "demo_struct =
     Mapping [(SStr ''a'', Sequence ListK [Scalar (SInt 1), Handle 1]),
              (SStr ''b'', Record ''Point'' [(''x'', Handle 4), (''y'', Opaque 0)])]"

text \<open>
  A dict from a string key to a list that mixes plain values and three futures, one of
  them inside a dataclass instance and one a member of a set.
\<close>

definition demo_nested :: pyval where
  "demo_nested =
     Mapping [(SStr ''k'',
               Sequence ListK
                 [Scalar (SInt 1), Handle 1, Record ''Point'' [(''x'', Handle 3)],
                  SetV [Scalar (SBool True), Handle 7], Scalar (SStr ''z'')])]"

lemmas demo_defs = demo_env_def demo_sys_def demo_heap_def init_def
  wait_def get_state_def Let_def is_completed_def is_failed_def

section \<open>Facts about one call\<close>

lemma get_state_result:
  "fst (get_state env st a) =
     (case fst (read_task_run env (world st) (client (heap st a)) (run_id (heap st a))) of
        None \<Rightarrow> Inl NotFound
      | Some tr \<Rightarrow> Inr (state tr))"
  by (simp add: get_state_def Let_def split: prod.splits option.splits)

lemma get_state_after:
  "snd (get_state env st a) =
     st\<lparr>world := snd (read_task_run env (world st) (client (heap st a)) (run_id (heap st a))),
        calls := calls st @ [ReadTaskRun (client (heap st a)) (run_id (heap st a))]\<rparr>"
  by (simp add: get_state_def Let_def split: prod.splits option.splits)

lemma get_state_heap: "heap (snd (get_state env st a)) = heap st"
  by (simp add: get_state_after)

lemma wait_empty_cache:
  assumes "final_state (heap st a) = None"
    and "read_task_run env (world st) (client (heap st a)) (run_id (heap st a)) = (otr, w1)"
  shows "wait env st a tmo =
     (case otr of
        None \<Rightarrow>
          (Inl NotFound,
           st\<lparr>world := w1,
              calls := calls st @ [ReadTaskRun (client (heap st a)) (run_id (heap st a))]\<rparr>)
      | Some tr \<Rightarrow>
          if (stype (state tr) = Completed \<or> stype (state tr) = Failed) \<and> data (state tr) \<noteq> None
          then (Inr (Some (state tr)),
                st\<lparr>world := w1,
                   calls := calls st @ [ReadTaskRun (client (heap st a)) (run_id (heap st a))]\<rparr>)
          else
            (Inr (fst (executor_wait env w1 (executor (heap st a)) a (heap st a) tmo)),
             st\<lparr>heap := (heap st)(a := (heap st a)
                          \<lparr>final_state := fst (executor_wait env w1 (executor (heap st a)) a (heap st a) tmo)\<rparr>),
                world := snd (executor_wait env w1 (executor (heap st a)) a (heap st a) tmo),
                calls := calls st @ [ReadTaskRun (client (heap st a)) (run_id (heap st a)),
                                     ExecutorWait (executor (heap st a)) a tmo]\<rparr>))"
  using assms
  by (simp add: wait_def get_state_def Let_def is_completed_def is_failed_def
           split: option.splits prod.splits)

lemma wait_heap_cases:
  "heap (snd (wait env st a tmo)) = heap st
   \<or> (final_state (heap st a) = None
      \<and> (\<exists>r. fst (wait env st a tmo) = Inr r
            \<and> heap (snd (wait env st a tmo)) = (heap st)(a := (heap st a)\<lparr>final_state := r\<rparr>)))"
proof (cases "final_state (heap st a)")
  case None
  obtain otr w1 where rd:
    "read_task_run env (world st) (client (heap st a)) (run_id (heap st a)) = (otr, w1)"
    by (cases "read_task_run env (world st) (client (heap st a)) (run_id (heap st a))")
  show ?thesis
    using None by (simp add: wait_empty_cache [OF None rd] split: option.splits)
next
  case (Some fs)
  then show ?thesis by (simp add: wait_def)
qed

lemma wait_frame:
  "run_id (heap (snd (wait env st a tmo)) b) = run_id (heap st b)"
  "client (heap (snd (wait env st a tmo)) b) = client (heap st b)"
  "executor (heap (snd (wait env st a tmo)) b) = executor (heap st b)"
  "exception (heap (snd (wait env st a tmo)) b) = exception (heap st b)"
  "final_state (heap st b) = Some s \<Longrightarrow> final_state (heap (snd (wait env st a tmo)) b) = Some s"
  using wait_heap_cases [of env st a tmo] by auto

lemma run_op_frame:
  "run_id (heap (run_op env st x) b) = run_id (heap st b)"
  "client (heap (run_op env st x) b) = client (heap st b)"
  "executor (heap (run_op env st x) b) = executor (heap st b)"
  "exception (heap (run_op env st x) b) = exception (heap st b)"
  "final_state (heap st b) = Some s \<Longrightarrow> final_state (heap (run_op env st x) b) = Some s"
  by (cases x; simp add: wait_frame get_state_heap)+

lemma run_ops_frame:
  "run_id (heap (run_ops env st xs) b) = run_id (heap st b)"
  "client (heap (run_ops env st xs) b) = client (heap st b)"
  "executor (heap (run_ops env st xs) b) = executor (heap st b)"
  "exception (heap (run_ops env st xs) b) = exception (heap st b)"
  "final_state (heap st b) = Some s \<Longrightarrow> final_state (heap (run_ops env st xs) b) = Some s"
  by (induction xs arbitrary: st; simp add: run_op_frame)+

lemma wait_unknown_run:
  assumes "final_state (heap st a) = None"
    and "fst (read_task_run env (world st) (client (heap st a)) (run_id (heap st a))) = None"
  shows "wait env st a tmo = (Inl NotFound, snd (get_state env st a))"
proof -
  obtain otr w1 where rd:
    "read_task_run env (world st) (client (heap st a)) (run_id (heap st a)) = (otr, w1)"
    by (cases "read_task_run env (world st) (client (heap st a)) (run_id (heap st a))")
  with assms(2) have "otr = None" by simp
  then show ?thesis
    by (simp add: wait_empty_cache [OF assms(1) rd] get_state_after rd)
qed

lemma waits_unknown_run_heap:
  assumes "final_state (heap st a) = None"
    and "\<forall>w. fst (read_task_run env w (client (heap st a)) (run_id (heap st a))) = None"
  shows "heap (run_ops env st (map (Wait a) tmos)) = heap st"
  using assms
proof (induction tmos arbitrary: st)
  case Nil
  show ?case by simp
next
  case (Cons t ts)
  have step: "snd (wait env st a t) = snd (get_state env st a)"
    using Cons.prems by (simp add: wait_unknown_run)
  have "heap (run_ops env (snd (get_state env st a)) (map (Wait a) ts))
          = heap (snd (get_state env st a))"
    using Cons.prems by (intro Cons.IH) (simp_all add: get_state_heap)
  then show ?case by (simp add: step get_state_heap)
qed

section \<open>Facts about the walk\<close>

lemma visit_handles_length:
  "visit_list f st (map Handle as) = (Inr ps, s) \<Longrightarrow> length ps = length as"
  by (induction as arbitrary: st ps) (auto split: prod.splits sum.splits)

lemma visit_list_append:
  "visit_list f st (xs @ ys) =
     (case visit_list f st xs of
        (Inl e, s) \<Rightarrow> (Inl e, s)
      | (Inr ps, s) \<Rightarrow>
          (case visit_list f s ys of
             (Inl e, s') \<Rightarrow> (Inl e, s')
           | (Inr qs, s') \<Rightarrow> (Inr (ps @ qs), s')))"
  by (induction xs arbitrary: st) (auto split: prod.splits sum.splits)

lemma visit_by_handles:
  "\<forall>s x. (\<forall>a. x \<noteq> Handle a) \<longrightarrow> f s x = (Inr x, s) \<Longrightarrow>
   visit_collection f st v =
     (case visit_list f st (map Handle (handles v)) of
        (Inl e, s) \<Rightarrow> (Inl e, s)
      | (Inr ps, s) \<Rightarrow> (Inr (rebuild v ps), s))"
  "\<forall>s x. (\<forall>a. x \<noteq> Handle a) \<longrightarrow> f s x = (Inr x, s) \<Longrightarrow>
   visit_list f st xs =
     (case visit_list f st (map Handle (concat (map handles xs))) of
        (Inl e, s) \<Rightarrow> (Inl e, s)
      | (Inr ps, s) \<Rightarrow> (Inr (fill_list_with remdups xs ps), s))"
proof (induction f st v and f st xs rule: visit_collection_visit_list.induct)
  case (10 f st x xs)
  note lf = "10.prems"
  show ?case
  proof (cases "visit_list f st (map Handle (handles x))")
    case (Pair r s)
    show ?thesis
    proof (cases r)
      case (Inl e)
      with Pair "10.IH"(1) [OF lf] show ?thesis by (simp add: visit_list_append)
    next
      case (Inr ps)
      with Pair have len: "length ps = length (handles x)"
        by (simp add: visit_handles_length)
      from Pair Inr "10.IH"(1) [OF lf]
      have vx: "visit_collection f st x = (Inr (rebuild x ps), s)"
        by simp
      note vxs = "10.IH"(2) [OF vx [symmetric] refl lf]
      show ?thesis
        using Pair Inr len vx vxs
        by (auto simp: visit_list_append rebuild_def split: prod.splits sum.splits)
    qed
  qed
qed (auto simp: rebuild_def split: prod.splits sum.splits)

lemma data_visit_fn_leaf: "\<forall>s x. (\<forall>a. x \<noteq> Handle a) \<longrightarrow> data_visit_fn env s x = (Inr x, s)"
  by (auto simp: data_visit_fn_def split: pyval.splits)

lemma states_visit_fn_leaf: "\<forall>s x. (\<forall>a. x \<noteq> Handle a) \<longrightarrow> states_visit_fn env s x = (Inr x, s)"
  by (auto simp: states_visit_fn_def split: pyval.splits)

lemma fill_without_handles:
  "\<forall>ys. distinct ys \<longrightarrow> dd ys = ys \<Longrightarrow> handles v = [] \<Longrightarrow> distinct_sets v
     \<Longrightarrow> fill_with dd v ps = v"
  "\<forall>ys. distinct ys \<longrightarrow> dd ys = ys \<Longrightarrow> concat (map handles xs) = []
     \<Longrightarrow> \<forall>x \<in> set xs. distinct_sets x \<Longrightarrow> fill_list_with dd xs ps = xs"
  by (induction dd v ps and dd xs ps rule: fill_with_fill_list_with.induct)
     (auto simp: zip_map_fst_snd)

lemma rebuild_without_handles:
  "handles v = [] \<Longrightarrow> distinct_sets v \<Longrightarrow> rebuild v ps = v"
  unfolding rebuild_def by (rule fill_without_handles(1)) simp_all

lemma states_visit_fn_handle:
  "states_visit_fn env st (Handle a) =
     (case wait env st a None of
        (Inl e, st') \<Rightarrow> (Inl e, st')
      | (Inr r, st') \<Rightarrow> (Inr (case r of None \<Rightarrow> Scalar SNone | Some s \<Rightarrow> StatusV s), st'))"
  by (simp add: states_visit_fn_def)

lemma data_visit_fn_handle:
  "data_visit_fn env st (Handle a) =
     (case wait env st a None of
        (Inl e, st') \<Rightarrow> (Inl e, st')
      | (Inr r, st') \<Rightarrow> (get_result r, st'))"
  by (simp add: data_visit_fn_def)

lemma length_fill_list: "length (fill_list_with dd xs ps) = length xs"
  by (induction xs arbitrary: ps) auto

lemma fill_distinct_sets:
  "\<forall>ys. distinct ys \<longrightarrow> dd ys = ys \<Longrightarrow> distinct_sets (fill_with (\<lambda>xs. xs) v ps)
     \<Longrightarrow> fill_with dd v ps = fill_with (\<lambda>xs. xs) v ps"
  "\<forall>ys. distinct ys \<longrightarrow> dd ys = ys
     \<Longrightarrow> \<forall>x \<in> set (fill_list_with (\<lambda>xs. xs) xs ps). distinct_sets x
     \<Longrightarrow> fill_list_with dd xs ps = fill_list_with (\<lambda>xs. xs) xs ps"
  by (induction dd v ps and dd xs ps rule: fill_with_fill_list_with.induct)
     (auto simp: length_fill_list)

lemma rebuild_distinct_sets:
  "distinct_sets (fill v ps) \<Longrightarrow> rebuild v ps = fill v ps"
  unfolding rebuild_def fill_def by (rule fill_distinct_sets(1)) simp_all

lemma wait_each_length:
  "wait_each env st as = (Inr rs, st') \<Longrightarrow> length rs = length as"
  by (induction as arbitrary: st rs) (auto split: prod.splits sum.splits)

lemma states_by_wait_each:
  "visit_list (states_visit_fn env) st (map Handle as) =
     (case wait_each env st as of
        (Inl e, s) \<Rightarrow> (Inl e, s)
      | (Inr rs, s) \<Rightarrow> (Inr (map result_value rs), s))"
proof (induction as arbitrary: st)
  case Nil
  show ?case by simp
next
  case (Cons a as)
  have rv: "(case r of None \<Rightarrow> Scalar SNone | Some s \<Rightarrow> StatusV s) = result_value r" for r
    by (cases r) simp_all
  show ?case
    by (simp add: states_visit_fn_handle Cons.IH rv split: prod.splits sum.splits)
qed

lemma data_by_wait_each:
  "wait_each env st as = (Inr rs, st') \<Longrightarrow> map get_result rs = map Inr ps
   \<Longrightarrow> visit_list (data_visit_fn env) st (map Handle as) = (Inr ps, st')"
proof (induction as arbitrary: st rs ps)
  case Nil
  then show ?case by simp
next
  case (Cons a as)
  from Cons.prems(1) obtain r s1 rs' where
    w: "wait env st a None = (Inr r, s1)"
    and rs: "rs = r # rs'"
    and rest: "wait_each env s1 as = (Inr rs', st')"
    by (auto split: prod.splits sum.splits)
  from Cons.prems(2) rs obtain p ps' where
    ps: "ps = p # ps'" and p: "get_result r = Inr p" and rest2: "map get_result rs' = map Inr ps'"
    by (cases ps) auto
  from Cons.IH [OF rest rest2] w p ps show ?case
    by (simp add: data_visit_fn_handle)
qed

lemma data_returns_by_wait_each:
  "visit_list (data_visit_fn env) st (map Handle as) = (Inr ps, st')
   \<Longrightarrow> \<exists>rs. wait_each env st as = (Inr rs, st') \<and> map get_result rs = map Inr ps"
proof (induction as arbitrary: st ps)
  case Nil
  then show ?case by simp
next
  case (Cons a as)
  from Cons.prems obtain r s1 p ps' where
    w: "wait env st a None = (Inr r, s1)"
    and p: "get_result r = Inr p"
    and rest: "visit_list (data_visit_fn env) s1 (map Handle as) = (Inr ps', st')"
    and ps: "ps = p # ps'"
    by (auto simp: data_visit_fn_handle split: prod.splits sum.splits)
  from Cons.IH [OF rest] obtain rs' where
    "wait_each env s1 as = (Inr rs', st')" "map get_result rs' = map Inr ps'"
    by blast
  with w p ps show ?case by simp
qed

lemma data_fails_at_first_failure:
  "wait_each env st as = (Inr rs, st') \<Longrightarrow> i < length as
   \<Longrightarrow> rs ! i = Some (State Failed d)
   \<Longrightarrow> list_all neither_failed_nor_cancelled (take i rs)
   \<Longrightarrow> fst (visit_list (data_visit_fn env) st (map Handle as)) = Inl (UpstreamFailure d)"
proof (induction as arbitrary: st rs i)
  case Nil
  then show ?case by simp
next
  case (Cons a as)
  from Cons.prems(1) obtain r s1 rs' where
    w: "wait env st a None = (Inr r, s1)"
    and rs: "rs = r # rs'"
    and rest: "wait_each env s1 as = (Inr rs', st')"
    by (auto split: prod.splits sum.splits)
  show ?case
  proof (cases i)
    case 0
    with Cons.prems(3) rs have "r = Some (State Failed d)" by simp
    with w show ?thesis
      by (simp add: data_visit_fn_handle get_result_def)
  next
    case (Suc j)
    with Cons.prems(4) rs obtain s where r: "r = Some s"
      and ok: "stype s \<noteq> Failed" "stype s \<noteq> Cancelled"
      by (cases r) auto
    from Suc Cons.prems rs have
      "fst (visit_list (data_visit_fn env) s1 (map Handle as)) = Inl (UpstreamFailure d)"
      by (intro Cons.IH [OF rest, of j]) auto
    with w r ok show ?thesis
      by (auto simp: data_visit_fn_handle get_result_def split: prod.splits sum.splits)
  qed
qed

section \<open>The future handle\<close>

text \<open>
  C1. Once \<open>_final_state\<close> of a future holds a status, \<open>wait\<close> returns that status
  whatever the timeout, and leaves the whole system as it was: no call on the client or
  the executor is recorded, the outside world and every future are unchanged. So any
  number of calls of \<open>wait\<close> on it, one after another, leave the system as it was.
\<close>

theorem wait_returns_cached_state:
  assumes "final_state (heap st a) = Some fs"
  shows "wait env st a tmo = (Inr (Some fs), st)
       \<and> run_ops env st (map (Wait a) tmos) = st"
proof -
  have one: "wait env st a t = (Inr (Some fs), st)" for t
    using assms by (simp add: wait_def)
  have "run_ops env st (map (Wait a) tmos) = st"
    by (induction tmos) (simp_all add: one)
  with one show ?thesis by simp
qed

text \<open>
  The future at address 6 was constructed with a final state.
\<close>

theorem wait_returns_cached_state_witness:
  "final_state (heap demo_sys 6) = Some (State Completed (Some (Scalar (SInt 7))))
   \<and> wait demo_env demo_sys 6 (Some 0)
       = (Inr (Some (State Completed (Some (Scalar (SInt 7))))), demo_sys)
   \<and> run_ops demo_env demo_sys (map (Wait 6) [None, Some 3]) = demo_sys"
  using wait_returns_cached_state
          [of demo_sys 6 "State Completed (Some (Scalar (SInt 7)))" demo_env "Some 0"
              "[None, Some 3]"]
  by (simp add: demo_sys_def demo_heap_def init_def)

text \<open>
  C2 as stated fails twice. The future of run 1 has an empty cache and the server reports
  Completed with a payload: \<open>wait\<close> returns that status and \<open>_final_state\<close> is still
  empty afterwards. The future of run 2 has an empty cache and the server reports
  Cancelled with a payload: \<open>wait\<close> goes on to the executor's wait.
\<close>

theorem wait_caches_reported_status_counterexample:
  "final_state (heap demo_sys 1) = None
   \<and> fst (read_task_run demo_env (world demo_sys) (client (heap demo_sys 1)) (run_id (heap demo_sys 1)))
       = Some (TaskRun (State Completed (Some (Scalar (SInt 7)))))
   \<and> fst (wait demo_env demo_sys 1 None) = Inr (Some (State Completed (Some (Scalar (SInt 7)))))
   \<and> final_state (heap (snd (wait demo_env demo_sys 1 None)) 1) = None
   \<and> final_state (heap demo_sys 2) = None
   \<and> fst (read_task_run demo_env (world demo_sys) (client (heap demo_sys 2)) (run_id (heap demo_sys 2)))
       = Some (TaskRun (State Cancelled (Some (Scalar (SStr ''stop'')))))
   \<and> calls (snd (wait demo_env demo_sys 2 None)) = [ReadTaskRun 0 2, ExecutorWait 0 2 None]"
  by (simp add: demo_defs)

text \<open>
  C2, amended. When the cache of a future is empty and the one query of the server
  reports a status that is Completed or Failed and has a payload attached, \<open>wait\<close>
  returns that status, and the query is the only call made: the executor is not asked to
  wait.
\<close>

theorem wait_returns_reported_status:
  assumes "final_state (heap st a) = None"
    and "read_task_run env (world st) (client (heap st a)) (run_id (heap st a)) = (Some tr, w1)"
    and "stype (state tr) = Completed \<or> stype (state tr) = Failed"
    and "data (state tr) \<noteq> None"
  shows "fst (wait env st a tmo) = Inr (Some (state tr))
       \<and> calls (snd (wait env st a tmo))
           = calls st @ [ReadTaskRun (client (heap st a)) (run_id (heap st a))]"
  using assms by (auto simp: wait_def get_state_def Let_def is_completed_def is_failed_def)

text \<open>
  The future of run 4, which has failed with a payload.
\<close>

theorem wait_returns_reported_status_witness:
  "final_state (heap demo_sys 4) = None
   \<and> read_task_run demo_env (world demo_sys) (client (heap demo_sys 4)) (run_id (heap demo_sys 4))
       = (Some (TaskRun (State Failed (Some (Scalar (SStr ''boom''))))), 1)
   \<and> fst (wait demo_env demo_sys 4 None) = Inr (Some (State Failed (Some (Scalar (SStr ''boom'')))))
   \<and> calls (snd (wait demo_env demo_sys 4 None)) = [ReadTaskRun 0 4]"
  using wait_returns_reported_status
          [of demo_sys 4 demo_env "TaskRun (State Failed (Some (Scalar (SStr ''boom''))))" 1 None]
  by (simp add: demo_env_def demo_sys_def demo_heap_def init_def)


text \<open>
  C3 as stated fails: the futures at addresses 4 and 5 were constructed with the same run
  identifier and do not compare equal.
\<close>

theorem equal_run_ids_compare_equal_counterexample:
  "heap demo_sys 4 = init 4 0 0 None \<and> heap demo_sys 5 = init 4 0 0 None
   \<and> \<not> future_eq 4 5"
  by (simp add: demo_sys_def demo_heap_def future_eq_def)

text \<open>
  C3, amended. Two distinct futures constructed with the same run identifier have the
  same hash value, and they do not compare equal: without \<open>__eq__\<close> in the class,
  a future is equal to itself only.
\<close>

theorem equal_run_ids_hash_equal:
  assumes "a \<noteq> b"
    and "heap st a = init rid c1 e1 fs1"
    and "heap st b = init rid c2 e2 fs2"
  shows "future_hash h (heap st a) = future_hash h (heap st b) \<and> \<not> future_eq a b"
  using assms by (simp add: future_hash_def future_eq_def init_def)

text \<open>
  The futures at addresses 4 and 5 again, with the hash of an integer in CPython on a
  64-bit machine.
\<close>

theorem equal_run_ids_hash_equal_witness:
  "(4::nat) \<noteq> 5 \<and> heap demo_sys 4 = init 4 0 0 None \<and> heap demo_sys 5 = init 4 0 0 None
   \<and> future_hash (\<lambda>u. uint u mod 2305843009213693951) (heap demo_sys 4)
       = future_hash (\<lambda>u. uint u mod 2305843009213693951) (heap demo_sys 5)
   \<and> \<not> future_eq 4 5"
  using equal_run_ids_hash_equal
          [of 4 5 demo_sys 4 0 0 None 0 0 None "\<lambda>u. uint u mod 2305843009213693951"]
  by (simp add: demo_sys_def demo_heap_def)


text \<open>
  C4. The cache of the future is empty, the server reports a status that is not terminal
  (Pending or Running), and the executor's wait with timeout \<open>t\<close> reports that the
  timeout elapsed. Then \<open>wait\<close> returns \<open>None\<close>, not an error, and every future is as
  it was, the cache of this one still empty. If at the next call the server still reports
  a status that is not terminal and the executor's wait, with whatever timeout is given
  now, produces a status, that call returns the status and caches it.
\<close>

theorem wait_timeout_leaves_future_unresolved:
  assumes "final_state (heap st a) = None"
    and "read_task_run env (world st) (client (heap st a)) (run_id (heap st a)) = (Some tr, w1)"
    and "stype (state tr) = Pending \<or> stype (state tr) = Running"
    and "executor_wait env w1 (executor (heap st a)) a (heap st a) (Some t) = (None, w2)"
  shows "fst (wait env st a (Some t)) = Inr None
       \<and> heap (snd (wait env st a (Some t))) = heap st
       \<and> (read_task_run env w2 (client (heap st a)) (run_id (heap st a)) = (Some tr', w3)
            \<and> (stype (state tr') = Pending \<or> stype (state tr') = Running)
            \<and> executor_wait env w3 (executor (heap st a)) a (heap st a) tmo = (Some s, w4)
          \<longrightarrow> fst (wait env (snd (wait env st a (Some t))) a tmo) = Inr (Some s)
              \<and> final_state (heap (snd (wait env (snd (wait env st a (Some t))) a tmo)) a) = Some s)"
proof -
  have self: "(heap st a)\<lparr>final_state := None\<rparr> = heap st a"
    using assms(1) by simp
  have first: "wait env st a (Some t) =
      (Inr None, st\<lparr>heap := heap st, world := w2,
                    calls := calls st @ [ReadTaskRun (client (heap st a)) (run_id (heap st a)),
                                         ExecutorWait (executor (heap st a)) a (Some t)]\<rparr>)"
    using assms(3,4) self by (auto simp: wait_empty_cache [OF assms(1,2)])
  show ?thesis
  proof (intro conjI impI)
    show "fst (wait env st a (Some t)) = Inr None" by (simp add: first)
    show "heap (snd (wait env st a (Some t))) = heap st" by (simp add: first)
  next
    assume later: "read_task_run env w2 (client (heap st a)) (run_id (heap st a)) = (Some tr', w3)
            \<and> (stype (state tr') = Pending \<or> stype (state tr') = Running)
            \<and> executor_wait env w3 (executor (heap st a)) a (heap st a) tmo = (Some s, w4)"
    let ?st1 = "snd (wait env st a (Some t))"
    have e: "final_state (heap ?st1 a) = None" using assms(1) by (simp add: first)
    have rd: "read_task_run env (world ?st1) (client (heap ?st1 a)) (run_id (heap ?st1 a))
                = (Some tr', w3)"
      using later by (simp add: first)
    show "fst (wait env ?st1 a tmo) = Inr (Some s)"
      using later by (auto simp: wait_empty_cache [OF e rd]) (simp_all add: first)
    show "final_state (heap (snd (wait env ?st1 a tmo)) a) = Some s"
      using later by (auto simp: wait_empty_cache [OF e rd]) (simp_all add: first)
  qed
qed

text \<open>
  The future of run 3, which is still running: a wait of 2 gives up, the wait without
  timeout that follows returns the final state.
\<close>

theorem wait_timeout_leaves_future_unresolved_witness:
  "final_state (heap demo_sys 3) = None
   \<and> read_task_run demo_env (world demo_sys) (client (heap demo_sys 3)) (run_id (heap demo_sys 3))
       = (Some (TaskRun (State Running None)), 1)
   \<and> executor_wait demo_env 1 (executor (heap demo_sys 3)) 3 (heap demo_sys 3) (Some 2) = (None, 2)
   \<and> fst (wait demo_env demo_sys 3 (Some 2)) = Inr None
   \<and> heap (snd (wait demo_env demo_sys 3 (Some 2))) = heap demo_sys
   \<and> read_task_run demo_env 2 (client (heap demo_sys 3)) (run_id (heap demo_sys 3))
       = (Some (TaskRun (State Running None)), 3)
   \<and> executor_wait demo_env 3 (executor (heap demo_sys 3)) 3 (heap demo_sys 3) None
       = (Some (State Completed (Some (Scalar (SInt 3)))), 4)
   \<and> fst (wait demo_env (snd (wait demo_env demo_sys 3 (Some 2))) 3 None)
       = Inr (Some (State Completed (Some (Scalar (SInt 3)))))"
  using wait_timeout_leaves_future_unresolved
          [of demo_sys 3 demo_env "TaskRun (State Running None)" 1 2 2
              "TaskRun (State Running None)" 3 None "State Completed (Some (Scalar (SInt 3)))" 4]
  by (simp add: demo_env_def demo_sys_def demo_heap_def init_def)

text \<open>
  C5 as stated fails: the future at address 6 is for a run the server does not know, and
  \<open>wait\<close> returns the state it was constructed with.
\<close>

theorem wait_unknown_run_fails_counterexample:
  "fst (read_task_run demo_env (world demo_sys) (client (heap demo_sys 6)) (run_id (heap demo_sys 6)))
     = None
   \<and> fst (wait demo_env demo_sys 6 None) = Inr (Some (State Completed (Some (Scalar (SInt 7)))))"
  by (simp add: demo_defs)

text \<open>
  C5, amended. When the cache of a future is empty and the server has no task run for
  its identifier, at any time, \<open>wait\<close> fails with the error of \<open>get_state\<close>. The
  one query is the only call made (no second query, no executor), no future is changed, so
  the cache stays empty, and after any number of such calls the next one fails the same
  way.
\<close>

theorem wait_unknown_run_fails:
  assumes "final_state (heap st a) = None"
    and "\<forall>w. fst (read_task_run env w (client (heap st a)) (run_id (heap st a))) = None"
  shows "fst (wait env st a tmo) = Inl NotFound
       \<and> heap (snd (wait env st a tmo)) = heap st
       \<and> calls (snd (wait env st a tmo))
           = calls st @ [ReadTaskRun (client (heap st a)) (run_id (heap st a))]
       \<and> fst (wait env (run_ops env st (map (Wait a) tmos)) a tmo) = Inl NotFound
       \<and> heap (snd (wait env (run_ops env st (map (Wait a) tmos)) a tmo)) = heap st"
proof -
  have one: "wait env s a tmo = (Inl NotFound, snd (get_state env s a))"
    if "heap s = heap st" for s
    using that assms by (intro wait_unknown_run) simp_all
  have later: "heap (run_ops env st (map (Wait a) tmos)) = heap st"
    using assms by (rule waits_unknown_run_heap)
  show ?thesis
    by (simp add: one later get_state_heap get_state_after)
qed

text \<open>
  The future at address 0, for the unknown run 0.
\<close>

theorem wait_unknown_run_fails_witness:
  "final_state (heap demo_sys 0) = None
   \<and> (\<forall>w. fst (read_task_run demo_env w (client (heap demo_sys 0)) (run_id (heap demo_sys 0))) = None)
   \<and> fst (wait demo_env demo_sys 0 (Some 5)) = Inl NotFound
   \<and> heap (snd (wait demo_env demo_sys 0 (Some 5))) = heap demo_sys
   \<and> calls (snd (wait demo_env demo_sys 0 (Some 5))) = [ReadTaskRun 0 0]
   \<and> fst (wait demo_env (run_ops demo_env demo_sys (map (Wait 0) [None, Some 1])) 0 (Some 5))
       = Inl NotFound"
  using wait_unknown_run_fails [of demo_sys 0 demo_env "Some 5" "[None, Some 1]"]
  by (simp add: demo_env_def demo_sys_def demo_heap_def init_def)

text \<open>
  C6. \<open>get_state\<close> returns the state of the task run the server reports for the run
  identifier, and fails when there is none. It changes no future, the one query of the
  server is the only call it makes, and what is in \<open>_final_state\<close> has no influence
  on its result.
\<close>

theorem get_state_queries_the_store:
  "fst (get_state env st a) =
     (case fst (read_task_run env (world st) (client (heap st a)) (run_id (heap st a))) of
        None \<Rightarrow> Inl NotFound
      | Some tr \<Rightarrow> Inr (state tr))
   \<and> heap (snd (get_state env st a)) = heap st
   \<and> calls (snd (get_state env st a))
       = calls st @ [ReadTaskRun (client (heap st a)) (run_id (heap st a))]
   \<and> fst (get_state env (st\<lparr>heap := (heap st)(a := (heap st a)\<lparr>final_state := c\<rparr>)\<rparr>) a)
       = fst (get_state env st a)"
  by (simp add: get_state_result get_state_after)

text \<open>
  C10. After any sequence of calls of \<open>wait\<close> and \<open>get_state\<close>, on any futures, with
  any timeouts, every future has the run identifier, the client, the executor and the
  exception slot it had before, and a \<open>_final_state\<close> that held a status still holds
  that status. Where one call of \<open>wait\<close> changes \<open>_final_state\<close> of a future, it is
  the future waited for, the slot was empty, and the new content is what the call
  returns; \<open>get_state\<close> changes no future.
\<close>

theorem wait_and_get_state_frame:
  "run_id (heap (run_ops env st xs) b) = run_id (heap st b)
   \<and> client (heap (run_ops env st xs) b) = client (heap st b)
   \<and> executor (heap (run_ops env st xs) b) = executor (heap st b)
   \<and> exception (heap (run_ops env st xs) b) = exception (heap st b)
   \<and> (final_state (heap st b) \<noteq> None
        \<longrightarrow> final_state (heap (run_ops env st xs) b) = final_state (heap st b))
   \<and> (final_state (heap (snd (wait env st a tmo)) b) \<noteq> final_state (heap st b)
        \<longrightarrow> b = a \<and> final_state (heap st b) = None
            \<and> fst (wait env st a tmo) = Inr (final_state (heap (snd (wait env st a tmo)) b)))
   \<and> heap (snd (get_state env st a)) = heap st"
proof -
  have changed: "b = a \<and> final_state (heap st b) = None
            \<and> fst (wait env st a tmo) = Inr (final_state (heap (snd (wait env st a tmo)) b))"
    if "final_state (heap (snd (wait env st a tmo)) b) \<noteq> final_state (heap st b)"
    using that wait_heap_cases [of env st a tmo] by (auto split: if_splits)
  show ?thesis
    using changed by (auto simp: run_ops_frame get_state_heap)
qed

text \<open>
  Four calls on the futures at addresses 3 and 6, and the one call that resolves the
  future of run 3.
\<close>

theorem wait_and_get_state_frame_witness:
  "run_id (heap (run_ops demo_env demo_sys [Wait 3 (Some 2), GetState 6, Wait 6 None, Wait 3 None]) 3) = 3
   \<and> exception (heap (run_ops demo_env demo_sys [Wait 3 (Some 2), GetState 6, Wait 6 None, Wait 3 None]) 3) = None
   \<and> final_state (heap demo_sys 6) \<noteq> None
   \<and> final_state (heap (run_ops demo_env demo_sys [Wait 3 (Some 2), GetState 6, Wait 6 None, Wait 3 None]) 6)
       = final_state (heap demo_sys 6)
   \<and> final_state (heap (snd (wait demo_env demo_sys 3 None)) 3) \<noteq> final_state (heap demo_sys 3)
   \<and> final_state (heap demo_sys 3) = None
   \<and> fst (wait demo_env demo_sys 3 None) = Inr (final_state (heap (snd (wait demo_env demo_sys 3 None)) 3))"
  using wait_and_get_state_frame
    [of demo_env demo_sys "[Wait 3 (Some 2), GetState 6, Wait 6 None, Wait 3 None]" 3 3 None]
    wait_and_get_state_frame
    [of demo_env demo_sys "[Wait 3 (Some 2), GetState 6, Wait 6 None, Wait 3 None]" 6 3 None]
  by (simp add: demo_defs)

section \<open>Structures with futures\<close>

text \<open>
  C7 as stated fails. Alone in a list, the future at address 4 resolves to a Failed
  status with payload \<open>boom\<close>. In a list that holds it after a future for an unknown
  run, both functions end with the error of that other future. In a list that holds it
  after the future of another failed run, or after the future of the cancelled run,
  \<open>resolve_futures_to_states\<close> shows its Failed status in second place, and
  \<open>resolve_futures_to_data\<close> ends with the error that carries the payload of the
  first future.
\<close>

theorem failed_future_in_structure_counterexample:
  "fst (resolve_futures_to_states demo_env demo_sys (Sequence ListK [Handle 4]))
     = Inr (Sequence ListK [StatusV (State Failed (Some (Scalar (SStr ''boom''))))])
   \<and> fst (resolve_futures_to_states demo_env demo_sys (Sequence ListK [Handle 0, Handle 4]))
       = Inl NotFound
   \<and> fst (resolve_futures_to_data demo_env demo_sys (Sequence ListK [Handle 0, Handle 4]))
       = Inl NotFound
   \<and> fst (resolve_futures_to_states demo_env demo_sys (Sequence ListK [Handle 8, Handle 4]))
       = Inr (Sequence ListK [StatusV (State Failed (Some (Scalar (SStr ''bang'')))),
                              StatusV (State Failed (Some (Scalar (SStr ''boom''))))])
   \<and> fst (resolve_futures_to_data demo_env demo_sys (Sequence ListK [Handle 8, Handle 4]))
       = Inl (UpstreamFailure (Some (Scalar (SStr ''bang''))))
   \<and> fst (resolve_futures_to_states demo_env demo_sys (Sequence ListK [Handle 2, Handle 4]))
       = Inr (Sequence ListK [StatusV (State Cancelled (Some (Scalar (SStr ''stop'')))),
                              StatusV (State Failed (Some (Scalar (SStr ''boom''))))])
   \<and> fst (resolve_futures_to_data demo_env demo_sys (Sequence ListK [Handle 2, Handle 4]))
       = Inl (UpstreamFailure (Some (Scalar (SStr ''stop''))))"
  by (simp add: resolve_futures_to_data_def data_visit_fn_def resolve_futures_to_states_def
        states_visit_fn_def get_result_def demo_defs)

text \<open>
  C7, amended. Suppose that \<open>wait\<close>, called without timeout on the futures of a
  structure one after another in the order of the walk, returns for each; that for the
  future in place \<open>i\<close> it returns a Failed status with payload \<open>d\<close>; and that for
  each future before it, it returns a status that is neither Failed nor Cancelled. Then
  \<open>resolve_futures_to_data\<close> ends with the error that carries \<open>d\<close>, and
  \<open>resolve_futures_to_states\<close> returns the structure with each future replaced by
  what \<open>wait\<close> returned for it, the Failed status for the future in place \<open>i\<close>, and
  leaves the system as the waits have left it.
\<close>

theorem failed_future_in_structure:
  assumes "wait_each env st (handles v) = (Inr rs, st')"
    and "i < length (handles v)"
    and "rs ! i = Some (State Failed d)"
    and "list_all neither_failed_nor_cancelled (take i rs)"
  shows "fst (resolve_futures_to_data env st v) = Inl (UpstreamFailure d)
       \<and> resolve_futures_to_states env st v = (Inr (rebuild v (map result_value rs)), st')
       \<and> map result_value rs ! i = StatusV (State Failed d)"
proof -
  obtain r s where run:
    "visit_list (data_visit_fn env) st (map Handle (handles v)) = (r, s)"
    by (cases "visit_list (data_visit_fn env) st (map Handle (handles v))")
  have "fst (visit_list (data_visit_fn env) st (map Handle (handles v))) = Inl (UpstreamFailure d)"
    using assms by (rule data_fails_at_first_failure)
  with run have "r = Inl (UpstreamFailure d)" by simp
  with run have "fst (resolve_futures_to_data env st v) = Inl (UpstreamFailure d)"
    by (simp add: resolve_futures_to_data_def visit_by_handles(1) [OF data_visit_fn_leaf])
  moreover have "resolve_futures_to_states env st v = (Inr (rebuild v (map result_value rs)), st')"
    using assms(1)
    by (simp add: resolve_futures_to_states_def visit_by_handles(1) [OF states_visit_fn_leaf]
          states_by_wait_each)
  moreover have "length rs = length (handles v)"
    using assms(1) by (rule wait_each_length)
  ultimately show ?thesis using assms(2,3) by simp
qed

text \<open>
  The dict \<open>demo_struct\<close>: the future of run 1 completes, the one of run 4 has failed.
\<close>

theorem failed_future_in_structure_witness:
  "wait_each demo_env demo_sys (handles demo_struct)
     = (Inr [Some (State Completed (Some (Scalar (SInt 7)))),
             Some (State Failed (Some (Scalar (SStr ''boom''))))],
        demo_sys\<lparr>world := 2, calls := [ReadTaskRun 0 1, ReadTaskRun 0 4]\<rparr>)
   \<and> (1::nat) < length (handles demo_struct)
   \<and> list_all neither_failed_nor_cancelled
        (take 1 [Some (State Completed (Some (Scalar (SInt 7)))),
                 Some (State Failed (Some (Scalar (SStr ''boom''))))])
   \<and> fst (resolve_futures_to_data demo_env demo_sys demo_struct)
        = Inl (UpstreamFailure (Some (Scalar (SStr ''boom''))))
   \<and> fst (resolve_futures_to_states demo_env demo_sys demo_struct)
        = Inr (Mapping
           [(SStr ''a'', Sequence ListK
               [Scalar (SInt 1), StatusV (State Completed (Some (Scalar (SInt 7))))]),
            (SStr ''b'', Record ''Point''
               [(''x'', StatusV (State Failed (Some (Scalar (SStr ''boom''))))),
                (''y'', Opaque 0)])])"
proof -
  have run: "wait_each demo_env demo_sys (handles demo_struct)
     = (Inr [Some (State Completed (Some (Scalar (SInt 7)))),
             Some (State Failed (Some (Scalar (SStr ''boom''))))],
        demo_sys\<lparr>world := 2, calls := [ReadTaskRun 0 1, ReadTaskRun 0 4]\<rparr>)"
    by (simp add: demo_struct_def demo_defs)
  have len: "(1::nat) < length (handles demo_struct)"
    by (simp add: demo_struct_def)
  show ?thesis
    using failed_future_in_structure [OF run len, of "Some (Scalar (SStr ''boom''))"] run len
    by (simp add: rebuild_def demo_struct_def)
qed

text \<open>
  C8. On a structure without futures, both functions return the structure itself and
  leave the system as it was; in particular a value of a type the walk does not know is
  returned as it is, without error.
\<close>

theorem resolve_without_futures_is_identity:
  assumes "handles v = []" and "distinct_sets v"
  shows "resolve_futures_to_data env st v = (Inr v, st)
       \<and> resolve_futures_to_states env st v = (Inr v, st)
       \<and> resolve_futures_to_data env st (Opaque n) = (Inr (Opaque n), st)
       \<and> resolve_futures_to_states env st (Opaque n) = (Inr (Opaque n), st)"
  using assms
  by (simp add: resolve_futures_to_data_def resolve_futures_to_states_def
        visit_by_handles(1) [OF data_visit_fn_leaf] visit_by_handles(1) [OF states_visit_fn_leaf]
        rebuild_without_handles data_visit_fn_def states_visit_fn_def)

text \<open>
  A tuple with a string and a set of an integer and an unknown object.
\<close>

theorem resolve_without_futures_is_identity_witness:
  "handles (Sequence TupleK [Scalar (SStr ''x''), SetV [Scalar (SInt 1), Opaque 3]]) = []
   \<and> distinct_sets (Sequence TupleK [Scalar (SStr ''x''), SetV [Scalar (SInt 1), Opaque 3]])
   \<and> resolve_futures_to_data demo_env demo_sys
         (Sequence TupleK [Scalar (SStr ''x''), SetV [Scalar (SInt 1), Opaque 3]])
       = (Inr (Sequence TupleK [Scalar (SStr ''x''), SetV [Scalar (SInt 1), Opaque 3]]), demo_sys)
   \<and> resolve_futures_to_states demo_env demo_sys
         (Sequence TupleK [Scalar (SStr ''x''), SetV [Scalar (SInt 1), Opaque 3]])
       = (Inr (Sequence TupleK [Scalar (SStr ''x''), SetV [Scalar (SInt 1), Opaque 3]]), demo_sys)"
  using resolve_without_futures_is_identity
    [of "Sequence TupleK [Scalar (SStr ''x''), SetV [Scalar (SInt 1), Opaque 3]]" demo_env demo_sys]
  by simp

text \<open>
  C9 as stated fails: the two futures for run 1 both resolve to the payload 7, and a set
  of the two becomes a set of one member.
\<close>

theorem resolve_data_keeps_shape_counterexample:
  "wait_each demo_env demo_sys (handles (SetV [Handle 1, Handle 7]))
     = (Inr [Some (State Completed (Some (Scalar (SInt 7)))),
             Some (State Completed (Some (Scalar (SInt 7))))],
        demo_sys\<lparr>world := 2, calls := [ReadTaskRun 0 1, ReadTaskRun 0 1]\<rparr>)
   \<and> fst (resolve_futures_to_data demo_env demo_sys (SetV [Handle 1, Handle 7]))
       = Inr (SetV [Scalar (SInt 7)])"
  by (simp add: resolve_futures_to_data_def data_visit_fn_def get_result_def demo_defs)

text \<open>
  C9, amended. Suppose that \<open>wait\<close>, called without timeout on the futures of a
  structure one after another in the order of the walk, returns for each, that
  \<open>get_result\<close> extracts a payload from each of these results, and that in \<open>fill\<close>
  of the structure with these payloads no set has two equal members. Then
  \<open>resolve_futures_to_data\<close> returns exactly that: the same containers of the same
  kinds, the same keys and field names, the future in place \<open>i\<close> replaced by the
  payload of the result of its wait, one payload for each future, every other value
  unchanged. And \<open>resolve_futures_to_data\<close> returns an output in no other case: when
  it returns one, each of the waits has returned and has a payload.
\<close>

theorem resolve_data_fills_futures:
  "(wait_each env st (handles v) = (Inr rs, st') \<and> map get_result rs = map Inr ps
      \<and> distinct_sets (fill v ps)
    \<longrightarrow> resolve_futures_to_data env st v = (Inr (fill v ps), st')
        \<and> length ps = length (handles v))
   \<and> (resolve_futures_to_data env st v = (Inr v', st'')
    \<longrightarrow> (\<exists>rs ps. wait_each env st (handles v) = (Inr rs, st'')
                 \<and> map get_result rs = map Inr ps))"
proof (intro conjI impI)
  assume h: "wait_each env st (handles v) = (Inr rs, st') \<and> map get_result rs = map Inr ps
      \<and> distinct_sets (fill v ps)"
  then have "visit_list (data_visit_fn env) st (map Handle (handles v)) = (Inr ps, st')"
    by (intro data_by_wait_each [of env st "handles v" rs st' ps]) simp_all
  then show "resolve_futures_to_data env st v = (Inr (fill v ps), st')"
    using h
    by (simp add: resolve_futures_to_data_def visit_by_handles(1) [OF data_visit_fn_leaf]
          rebuild_distinct_sets)
  have "length rs = length (handles v)"
    using h by (intro wait_each_length [of env st "handles v" rs st']) simp
  moreover have "length (map get_result rs) = length (map Inr ps :: (error + pyval) list)"
    using h by simp
  ultimately show "length ps = length (handles v)" by simp
next
  assume "resolve_futures_to_data env st v = (Inr v', st'')"
  then obtain ps where
    "visit_list (data_visit_fn env) st (map Handle (handles v)) = (Inr ps, st'')"
    by (auto simp: resolve_futures_to_data_def visit_by_handles(1) [OF data_visit_fn_leaf]
          split: prod.splits sum.splits)
  then show "\<exists>rs ps. wait_each env st (handles v) = (Inr rs, st'')
                 \<and> map get_result rs = map Inr ps"
    using data_returns_by_wait_each by blast
qed

text \<open>
  The dict \<open>demo_nested\<close>: run 1 is completed with 7 and the executor reports 3 for
  run 3; the set keeps its two members.
\<close>

theorem resolve_data_fills_futures_witness:
  "wait_each demo_env demo_sys (handles demo_nested)
     = (Inr [Some (State Completed (Some (Scalar (SInt 7)))),
             Some (State Completed (Some (Scalar (SInt 3)))),
             Some (State Completed (Some (Scalar (SInt 7))))],
        demo_sys\<lparr>heap := (heap demo_sys)(3 := (heap demo_sys 3)
                   \<lparr>final_state := Some (State Completed (Some (Scalar (SInt 3))))\<rparr>),
           world := 4,
           calls := [ReadTaskRun 0 1, ReadTaskRun 0 3, ExecutorWait 0 3 None, ReadTaskRun 0 1]\<rparr>)
   \<and> map get_result [Some (State Completed (Some (Scalar (SInt 7)))),
             Some (State Completed (Some (Scalar (SInt 3)))),
             Some (State Completed (Some (Scalar (SInt 7))))]
       = map Inr [Scalar (SInt 7), Scalar (SInt 3), Scalar (SInt 7)]
   \<and> distinct_sets (fill demo_nested [Scalar (SInt 7), Scalar (SInt 3), Scalar (SInt 7)])
   \<and> resolve_futures_to_data demo_env demo_sys demo_nested
       = (Inr (Mapping [(SStr ''k'',
               Sequence ListK
                 [Scalar (SInt 1), Scalar (SInt 7), Record ''Point'' [(''x'', Scalar (SInt 3))],
                  SetV [Scalar (SBool True), Scalar (SInt 7)], Scalar (SStr ''z'')])]),
          demo_sys\<lparr>heap := (heap demo_sys)(3 := (heap demo_sys 3)
                   \<lparr>final_state := Some (State Completed (Some (Scalar (SInt 3))))\<rparr>),
           world := 4,
           calls := [ReadTaskRun 0 1, ReadTaskRun 0 3, ExecutorWait 0 3 None, ReadTaskRun 0 1]\<rparr>)"
proof -
  have run: "wait_each demo_env demo_sys (handles demo_nested)
     = (Inr [Some (State Completed (Some (Scalar (SInt 7)))),
             Some (State Completed (Some (Scalar (SInt 3)))),
             Some (State Completed (Some (Scalar (SInt 7))))],
        demo_sys\<lparr>heap := (heap demo_sys)(3 := (heap demo_sys 3)
                   \<lparr>final_state := Some (State Completed (Some (Scalar (SInt 3))))\<rparr>),
           world := 4,
           calls := [ReadTaskRun 0 1, ReadTaskRun 0 3, ExecutorWait 0 3 None, ReadTaskRun 0 1]\<rparr>)"
    by (simp add: demo_nested_def demo_defs)
  have pay: "map get_result [Some (State Completed (Some (Scalar (SInt 7)))),
             Some (State Completed (Some (Scalar (SInt 3)))),
             Some (State Completed (Some (Scalar (SInt 7))))]
       = map Inr [Scalar (SInt 7), Scalar (SInt 3), Scalar (SInt 7)]"
    by (simp add: get_result_def)
  have ds: "distinct_sets (fill demo_nested [Scalar (SInt 7), Scalar (SInt 3), Scalar (SInt 7)])"
    by (simp add: fill_def demo_nested_def)
  have "resolve_futures_to_data demo_env demo_sys demo_nested
       = (Inr (fill demo_nested [Scalar (SInt 7), Scalar (SInt 3), Scalar (SInt 7)]),
          demo_sys\<lparr>heap := (heap demo_sys)(3 := (heap demo_sys 3)
                   \<lparr>final_state := Some (State Completed (Some (Scalar (SInt 3))))\<rparr>),
           world := 4,
           calls := [ReadTaskRun 0 1, ReadTaskRun 0 3, ExecutorWait 0 3 None, ReadTaskRun 0 1]\<rparr>)"
    using resolve_data_fills_futures
            [of demo_env demo_sys demo_nested
                "[Some (State Completed (Some (Scalar (SInt 7)))),
                  Some (State Completed (Some (Scalar (SInt 3)))),
                  Some (State Completed (Some (Scalar (SInt 7))))]"
                "demo_sys\<lparr>heap := (heap demo_sys)(3 := (heap demo_sys 3)
                   \<lparr>final_state := Some (State Completed (Some (Scalar (SInt 3))))\<rparr>),
                  world := 4,
                  calls := [ReadTaskRun 0 1, ReadTaskRun 0 3, ExecutorWait 0 3 None,
                            ReadTaskRun 0 1]\<rparr>"
                "[Scalar (SInt 7), Scalar (SInt 3), Scalar (SInt 7)]"
                "Mapping [(SStr ''k'',
                   Sequence ListK
                     [Scalar (SInt 1), Scalar (SInt 7),
                      Record ''Point'' [(''x'', Scalar (SInt 3))],
                      SetV [Scalar (SBool True), Scalar (SInt 7)], Scalar (SStr ''z'')])]"
                "demo_sys\<lparr>heap := (heap demo_sys)(3 := (heap demo_sys 3)
                   \<lparr>final_state := Some (State Completed (Some (Scalar (SInt 3))))\<rparr>),
                  world := 4,
                  calls := [ReadTaskRun 0 1, ReadTaskRun 0 3, ExecutorWait 0 3 None,
                            ReadTaskRun 0 1]\<rparr>"]
          run pay ds
    by blast
  then show ?thesis
    using run pay ds by (simp add: fill_def demo_nested_def)
qed

end
